theory Spec2Isabelle
  imports Main "HOL-Library.AList"
begin

section \<open>Timeline data of the patient chart: the time axis and the entry grouper\<close>

text \<open>
  The development embeds the module that reshapes lab observations for the timeline
  table: \<^verbatim>\<open>parseTime\<close>, \<^verbatim>\<open>parseEntries\<close> and the three hooks
  \<^verbatim>\<open>useTimelineData\<close>, \<^verbatim>\<open>useAllTimelineData\<close> and
  \<^verbatim>\<open>usePatientPanels\<close>.
\<close>

subsection \<open>Observation records and JavaScript errors\<close>

text \<open>
  An \<^verbatim>\<open>ObsRecord\<close> as far as the module reads it: \<^verbatim>\<open>name\<close>,
  \<^verbatim>\<open>effectiveDateTime\<close> and the optional \<^verbatim>\<open>members\<close>
  (\<open>None\<close> is \<^verbatim>\<open>undefined\<close>). The identifier \<open>obs_id\<close> stands for the
  record's own identity, which the module never reads.
\<close>

datatype ObsRecord =
  ObsRecord (name: string) (effectiveDateTime: string) (obs_id: string)
    (members: "ObsRecord list option")

text \<open>
  A thrown value. \<open>TypeError\<close> is what reading a property of \<^verbatim>\<open>undefined\<close>
  throws; \<open>Error msg\<close> is \<^verbatim>\<open>new Error(msg)\<close>.
\<close>

datatype js_error = Error string | TypeError

subsection \<open>The time axis: \<^verbatim>\<open>parseTime\<close>\<close>

text \<open>
  The three readings of a timestamp come from the \<^verbatim>\<open>dayjs\<close> library, which is
  outside the module: the year as a string, the \<^verbatim>\<open>DD - MMM\<close> label and the
  \<^verbatim>\<open>HH:mm\<close> label. They are parameters of the model.
\<close>

record dayjs =
  year_toString :: "string \<Rightarrow> string"
  format_DD_MMM :: "string \<Rightarrow> string"
  format_HH_mm :: "string \<Rightarrow> string"

record yearColumn =
  year :: string
  size_col :: nat

record dayColumn = yearColumn +
  day :: string

record parseTime_result =
  yearColumns :: "yearColumn list"
  dayColumns :: "dayColumn list"
  timeColumns :: "string list"
  sortedTimes :: "string list"

text \<open>
  \<^verbatim>\<open>columns.find(p)\<close> yields a reference to the first column that satisfies
  \<^verbatim>\<open>p\<close>, and \<^verbatim>\<open>column.size++\<close> changes that column where it stands in the
  array: \<open>increment_found\<close> is the array after the increment.
\<close>

fun increment_found ::
  "(('a yearColumn_scheme) \<Rightarrow> bool) \<Rightarrow> ('a yearColumn_scheme) list \<Rightarrow> ('a yearColumn_scheme) list"
where
  "increment_found p [] = []"
| "increment_found p (c # cs) =
     (if p c then c\<lparr>size_col := size_col c + 1\<rparr> # cs else c # increment_found p cs)"

definition find_or_push ::
  "(('a yearColumn_scheme) \<Rightarrow> bool) \<Rightarrow> ('a yearColumn_scheme) \<Rightarrow> ('a yearColumn_scheme) list
     \<Rightarrow> ('a yearColumn_scheme) list"
where
  "find_or_push p new columns =
     (case find p columns of
        Some column \<Rightarrow> increment_found p columns
      | None \<Rightarrow> columns @ [new])"

text \<open>One round of the \<^verbatim>\<open>forEach\<close> over the timestamps, on the three accumulators.\<close>

definition parseTime_each ::
  "dayjs \<Rightarrow> string \<Rightarrow> yearColumn list \<times> dayColumn list \<times> string list
     \<Rightarrow> yearColumn list \<times> dayColumn list \<times> string list"
where
  "parseTime_each dj datetime acc =
     (case acc of (yearCols, dayCols, timeCols) \<Rightarrow>
        let yr = year_toString dj datetime;
            date = format_DD_MMM dj datetime;
            time = format_HH_mm dj datetime
        in (find_or_push (\<lambda>c. yr = year c) \<lparr>year = yr, size_col = 1\<rparr> yearCols,
            find_or_push (\<lambda>c. date = day c \<and> yr = year c)
              \<lparr>year = yr, size_col = 1, day = date\<rparr> dayCols,
            timeCols @ [time]))"

definition parseTime :: "dayjs \<Rightarrow> string list \<Rightarrow> parseTime_result" where
  "parseTime dj ts =
     (case fold (parseTime_each dj) ts ([], [], []) of
        (yearCols, dayCols, timeCols) \<Rightarrow>
          \<lparr>yearColumns = yearCols, dayColumns = dayCols, timeColumns = timeCols,
           sortedTimes = ts\<rparr>)"

text \<open>
  The accumulation rule in the specification's words, for comparison with
  \<open>find_or_push\<close>: a column whose key equals that of the timestamp, anywhere in the
  accumulated list, has its size incremented; with no such column, a new one of size 1 is
  appended.
\<close>

definition spec_find_or_create ::
  "(('a yearColumn_scheme) \<Rightarrow> 'k) \<Rightarrow> 'k \<Rightarrow> ('a yearColumn_scheme)
     \<Rightarrow> ('a yearColumn_scheme) list \<Rightarrow> ('a yearColumn_scheme) list"
where
  "spec_find_or_create key k new columns =
     (if k \<in> set (map key columns)
      then map (\<lambda>c. if key c = k then c\<lparr>size_col := size_col c + 1\<rparr> else c) columns
      else columns @ [new])"

text \<open>The distinct values of a list, in the order of their first occurrence.\<close>

definition first_seen :: "'a list \<Rightarrow> 'a list" where
  "first_seen xs = rev (remdups (rev xs))"

text \<open>The key of a day column: the pair of the year and the day label.\<close>

definition day_key :: "dayjs \<Rightarrow> string \<Rightarrow> string \<times> string" where
  "day_key dj t = (year_toString dj t, format_DD_MMM dj t)"

text \<open>
  A sample reading of timestamps written \<^verbatim>\<open>YYYY-MM-DDTHH:mm\<close>, for the concrete
  examples below. The theorems hold for every \<open>dayjs\<close>.
\<close>

definition month_abbreviation :: "string \<Rightarrow> string" where
  "month_abbreviation mm =
     (case map_of
        [(''01'', ''Jan''), (''02'', ''Feb''), (''03'', ''Mar''), (''04'', ''Apr''),
         (''05'', ''May''), (''06'', ''Jun''), (''07'', ''Jul''), (''08'', ''Aug''),
         (''09'', ''Sep''), (''10'', ''Oct''), (''11'', ''Nov''), (''12'', ''Dec'')] mm of
        Some mmm \<Rightarrow> mmm
      | None \<Rightarrow> ''Invalid Date'')"

definition sample_dayjs :: dayjs where
  "sample_dayjs =
     \<lparr>year_toString = take 4,
      format_DD_MMM = (\<lambda>s. take 2 (drop 8 s) @ '' - '' @ month_abbreviation (take 2 (drop 5 s))),
      format_HH_mm = (\<lambda>s. take 5 (drop 11 s))\<rparr>"

subsection \<open>The entry grouper: \<^verbatim>\<open>parseEntries\<close>\<close>

text \<open>
  A row is a JavaScript array of \<^verbatim>\<open>ObsRecord | undefined\<close> that may have holes:
  a slot is a hole (no property at that index), the value \<^verbatim>\<open>undefined\<close>, or a
  record. \<^verbatim>\<open>rows\<close> is the object literal \<^verbatim>\<open>{}\<close> used as a dictionary from
  names to rows; its own properties are kept in the order of their creation (the order plays
  no part below).
\<close>

datatype cell = Hole | Undefined | Obs ObsRecord

type_synonym rows = "(string \<times> cell list) list"

text \<open>
  \<^verbatim>\<open>rows\<close> inherits from \<^verbatim>\<open>Object.prototype\<close>, and so does every array
  behind \<^verbatim>\<open>Array.prototype\<close>, which has no index properties. The language gives
  \<^verbatim>\<open>Object.prototype\<close> the properties named below: the accessor
  \<^verbatim>\<open>__proto__\<close>, whose getter yields the prototype object itself, and eleven
  functions. What the grouper can add to it are records under index keys (see \<open>place\<close>);
  these additions are the state \<open>object_prototype\<close>, which outlives a call. A realm that
  nothing has touched has none: \<open>pristine\<close>.
\<close>

definition Object_prototype_names :: "string list" where
  "Object_prototype_names =
     [''constructor'', ''__defineGetter__'', ''__defineSetter__'', ''hasOwnProperty'',
      ''__lookupGetter__'', ''__lookupSetter__'', ''isPrototypeOf'', ''propertyIsEnumerable'',
      ''toString'', ''valueOf'', ''__proto__'', ''toLocaleString'']"

type_synonym object_prototype = "(string \<times> ObsRecord) list"

definition pristine :: object_prototype where
  "pristine = []"

datatype inherited_value = Prototype_object | Function_object | Record_object ObsRecord

text \<open>
  The value that an object with no own property \<open>nm\<close> inherits from
  \<^verbatim>\<open>Object.prototype\<close>, if any. Each of them is an object, hence truthy.
\<close>

definition inherited :: "object_prototype \<Rightarrow> string \<Rightarrow> inherited_value option" where
  "inherited op nm =
     (if nm = ''__proto__'' then Some Prototype_object
      else case map_of op nm of
             Some m \<Rightarrow> Some (Record_object m)
           | None \<Rightarrow> if nm \<in> set Object_prototype_names then Some Function_object else None)"

text \<open>The property key of an array index: its decimal numeral.\<close>

fun decimal :: "nat \<Rightarrow> string" where
  "decimal n =
     (if n < 10 then [char_of (48 + n)]
      else decimal (n div 10) @ [char_of (48 + n mod 10)])"

declare decimal.simps [simp del]

text \<open>
  \<^verbatim>\<open>row[index] = member\<close> on an array: inside the array the slot is overwritten; at
  or beyond its length the array grows to \<open>index + 1\<close> and the slots in between are holes.
\<close>

definition assign_index :: "cell list \<Rightarrow> nat \<Rightarrow> ObsRecord \<Rightarrow> cell list" where
  "assign_index row index member =
     (if index < length row then row[index := Obs member]
      else row @ replicate (index - length row) Hole @ [Obs member])"

text \<open>
  The assignment when \<open>row\<close> is a row of \<open>rows\<close>, or the new row \<^verbatim>\<open>[]\<close> that
  \<^verbatim>\<open>rows[name] = []\<close> has just created: \<open>row\<close> is the array that \<open>rows\<close>
  holds, so the assignment changes the dictionary's row.
\<close>

definition own_place :: "nat \<Rightarrow> ObsRecord \<Rightarrow> rows \<Rightarrow> rows" where
  "own_place index member rows =
     (let row = (case map_of rows (name member) of Some r \<Rightarrow> r | None \<Rightarrow> [])
      in AList.update (name member) (assign_index row index member) rows)"

text \<open>
  The body of both iterations:
  \<^verbatim>\<open>const row = rows[name] || (rows[name] = []); row[index] = member\<close>.
  \<^verbatim>\<open>rows[name]\<close> is the own row if there is one (an array is truthy, also when
  empty) and the inherited value otherwise. Only when there is neither is a row created.
  An inherited value is truthy, so \<open>row\<close> is that object and the record is assigned to
  \<^emph>\<open>it\<close>: for \<^verbatim>\<open>__proto__\<close> this puts the record on
  \<^verbatim>\<open>Object.prototype\<close> under the key of the index; for a function or a record the
  object gains an index property that nothing in the module reads. In these cases
  \<open>rows\<close> stays as it is.
\<close>

definition place ::
  "nat \<Rightarrow> ObsRecord \<Rightarrow> rows \<times> object_prototype \<Rightarrow> rows \<times> object_prototype"
where
  "place index member st =
     (case st of (rows, op) \<Rightarrow>
        (case map_of rows (name member) of
           Some row \<Rightarrow> (own_place index member rows, op)
         | None \<Rightarrow>
             (case inherited op (name member) of
                None \<Rightarrow> (own_place index member rows, op)
              | Some Prototype_object \<Rightarrow> (rows, AList.update (decimal index) member op)
              | Some Function_object \<Rightarrow> (rows, op)
              | Some (Record_object m) \<Rightarrow> (rows, op))))"

fun forEach_Test ::
  "ObsRecord list \<Rightarrow> nat \<Rightarrow> rows \<times> object_prototype \<Rightarrow> rows \<times> object_prototype"
where
  "forEach_Test [] index st = st"
| "forEach_Test (member # rest) index st =
     forEach_Test rest (Suc index) (place index member st)"

text \<open>
  For \<^verbatim>\<open>LabSet\<close> the members of the entry are read without a check:
  \<^verbatim>\<open>members.forEach\<close> on an absent \<^verbatim>\<open>members\<close> throws a TypeError, which
  leaves \<^verbatim>\<open>parseEntries\<close>. What was put on the prototype before stays there.
\<close>

fun forEach_LabSet ::
  "ObsRecord list \<Rightarrow> nat \<Rightarrow> rows \<times> object_prototype
     \<Rightarrow> (js_error + rows) \<times> object_prototype"
where
  "forEach_LabSet [] index st = (Inr (fst st), snd st)"
| "forEach_LabSet (entry # rest) index st =
     (case members entry of
        None \<Rightarrow> (Inl TypeError, snd st)
      | Some ms \<Rightarrow> forEach_LabSet rest (Suc index) (fold (place index) ms st))"

text \<open>
  \<^verbatim>\<open>[...value]\<close>: the copy has the same length, and every index below it is read
  with an ordinary property get. At a hole the get goes up the prototype chain, so it
  yields the record that \<^verbatim>\<open>Object.prototype\<close> has under that index, and
  \<^verbatim>\<open>undefined\<close> if it has none.
\<close>

definition spread :: "object_prototype \<Rightarrow> cell list \<Rightarrow> cell list" where
  "spread op row =
     map (\<lambda>i. case row ! i of
                 Hole \<Rightarrow> (case map_of op (decimal i) of
                             Some m \<Rightarrow> Obs m
                           | None \<Rightarrow> Undefined)
               | Undefined \<Rightarrow> Undefined
               | Obs m \<Rightarrow> Obs m)
       [0..<length row]"

text \<open>
  \<^verbatim>\<open>Object.entries(rows).forEach(([key, value]) => (rows[key] = [...value]))\<close>:
  the own entries are listed once, then each key, an own property, is assigned the copy
  of its row.
\<close>

definition respread :: "object_prototype \<Rightarrow> rows \<Rightarrow> rows" where
  "respread op rows = fold (\<lambda>(key, row). AList.update key (spread op row)) rows rows"

text \<open>
  \<^verbatim>\<open>parseEntries\<close>, from the additions that \<^verbatim>\<open>Object.prototype\<close> has when
  it is called: what it returns or throws, and the additions afterwards. The parameter
  \<open>entries\<close> defaults to the empty array when it is \<^verbatim>\<open>undefined\<close> (\<open>None\<close>).
\<close>

definition parseEntries ::
  "object_prototype \<Rightarrow> ObsRecord list option \<Rightarrow> string
     \<Rightarrow> (js_error + rows) \<times> object_prototype"
where
  "parseEntries op entries type =
     (let es = (case entries of None \<Rightarrow> [] | Some es \<Rightarrow> es) in
      case (if type = ''LabSet'' then forEach_LabSet es 0 ([], op)
            else if type = ''Test'' then
              (case forEach_Test es 0 ([], op) of (rows, op') \<Rightarrow> (Inr rows, op'))
            else (Inr [], op)) of
        (Inl e, op') \<Rightarrow> (Inl e, op')
      | (Inr rows, op') \<Rightarrow> (Inr (respread op' rows), op'))"

text \<open>
  Reading a result: \<open>obs_at row i\<close> is the record at index \<open>i\<close> of a row, if there is
  one (a hole, \<^verbatim>\<open>undefined\<close> and an index beyond the length all read as no
  record), and \<open>row_at rows n i\<close> reads the row of the name \<open>n\<close>.
\<close>

definition obs_at :: "cell list \<Rightarrow> nat \<Rightarrow> ObsRecord option" where
  "obs_at row i =
     (if i < length row then (case row ! i of Obs m \<Rightarrow> Some m | _ \<Rightarrow> None) else None)"

definition row_at :: "rows \<Rightarrow> string \<Rightarrow> nat \<Rightarrow> ObsRecord option" where
  "row_at rows n i = (case map_of rows n of None \<Rightarrow> None | Some row \<Rightarrow> obs_at row i)"

text \<open>
  What the input records for the name \<open>n\<close> at the index \<open>i\<close>: for
  \<^verbatim>\<open>Test\<close> the entry at \<open>i\<close> if it has that name, for \<^verbatim>\<open>LabSet\<close> the
  last member of that name of the entry at \<open>i\<close>.
\<close>

definition recorded :: "string \<Rightarrow> ObsRecord list \<Rightarrow> string \<Rightarrow> nat \<Rightarrow> ObsRecord option" where
  "recorded kind es n i =
     (if i < length es then
        (if kind = ''LabSet'' then
           (case members (es ! i) of
              None \<Rightarrow> None
            | Some ms \<Rightarrow> find (\<lambda>m. name m = n) (rev ms))
         else if kind = ''Test'' then (if name (es ! i) = n then Some (es ! i) else None)
         else None)
      else None)"

text \<open>The records that the grouper assigns, in the order of the assignments.\<close>

definition placed :: "string \<Rightarrow> ObsRecord list \<Rightarrow> ObsRecord list" where
  "placed kind es =
     (if kind = ''LabSet'' then
        concat (map (\<lambda>e. case members e of None \<Rightarrow> [] | Some ms \<Rightarrow> ms) es)
      else if kind = ''Test'' then es
      else [])"

text \<open>
  The shape of the rows while the entries are visited, at a point where every index assigned so far
  is below \<open>k\<close>: the keys are distinct, no row is empty, the last slot of a row holds a
  record, no row is longer than \<open>k\<close>, and no slot holds \<^verbatim>\<open>undefined\<close>.
\<close>

definition well_built :: "nat \<Rightarrow> rows \<Rightarrow> bool" where
  "well_built k rows =
     (distinct (map fst rows) \<and>
      (\<forall>(n, r) \<in> set rows.
         r \<noteq> [] \<and> (\<exists>m. last r = Obs m) \<and> length r \<le> k \<and> Undefined \<notin> set r))"

text \<open>Every row has a slot at index \<open>i\<close>.\<close>

definition every_row_reaches :: "nat \<Rightarrow> rows \<Rightarrow> bool" where
  "every_row_reaches i rows = list_all (\<lambda>(n, r). i < length r) rows"

subsection \<open>The three hooks\<close>

text \<open>
  A panel of \<^verbatim>\<open>sortedObs\<close>, and what the fetch hook
  \<^verbatim>\<open>usePatientResultsData\<close> returns. \<open>sortedObs\<close> is held as the list that
  \<^verbatim>\<open>Object.entries\<close> gives; \<open>None\<close> is an absent \<^verbatim>\<open>sortedObs\<close> or an
  absent \<^verbatim>\<open>error\<close>. An object, also an empty one, is truthy, and so is an
  \<^verbatim>\<open>Error\<close>. The fetch hook itself is outside the module and is a parameter.
\<close>

record panel =
  uuid :: string
  type :: string
  entries :: "ObsRecord list"

record fetch_state =
  loaded :: bool
  error :: "js_error option"

record patientResults = fetch_state +
  sortedObs :: "(string \<times> panel) list option"

record 'd hook_result = fetch_state +
  data :: 'd

text \<open>
  The data of one timeline. \<^verbatim>\<open>{ parsedTime: {} }\<close> is the value with no parsed
  time, no \<^verbatim>\<open>rowData\<close> and no \<^verbatim>\<open>panelName\<close>.
\<close>

record timeline =
  parsedTime :: "parseTime_result option"
  rowData :: "rows option"
  panelName :: "string option"

definition empty_parsedTime :: timeline where
  "empty_parsedTime = \<lparr>parsedTime = None, rowData = None, panelName = None\<rparr>"

text \<open>
  A hook returns its result, or the error that \<^verbatim>\<open>parseEntries\<close> throws inside
  it (\<open>Inl\<close>), together with the additions to \<^verbatim>\<open>Object.prototype\<close> after the
  call. \<^verbatim>\<open>useMemo\<close> only caches the computation.
\<close>

definition useTimelineData ::
  "dayjs \<Rightarrow> (string \<Rightarrow> patientResults) \<Rightarrow> object_prototype \<Rightarrow> string \<Rightarrow> string option
     \<Rightarrow> (js_error + timeline hook_result) \<times> object_prototype"
where
  "useTimelineData dj usePatientResultsData op patientUuid panelUuid =
     (let r = usePatientResultsData patientUuid;
          not_ready = \<lparr>loaded = loaded r, error = error r, data = empty_parsedTime\<rparr>
      in case sortedObs r of
           None \<Rightarrow> (Inr not_ready, op)
         | Some obs \<Rightarrow>
             if \<not> loaded r \<or> error r \<noteq> None then (Inr not_ready, op)
             else
               (case find (\<lambda>(pName, panelData). Some (uuid panelData) = panelUuid) obs of
                  None \<Rightarrow>
                    (Inr \<lparr>loaded = loaded r, error = Some (Error ''panel data missing''),
                          data = empty_parsedTime\<rparr>, op)
                | Some (pName, panelData) \<Rightarrow>
                    let times = map effectiveDateTime (entries panelData) in
                    (case parseEntries op (Some (entries panelData)) (type panelData) of
                       (Inl e, op') \<Rightarrow> (Inl e, op')
                     | (Inr rData, op') \<Rightarrow>
                         (Inr \<lparr>loaded = True, error = None,
                               data = \<lparr>parsedTime = Some (parseTime dj times),
                                        rowData = Some rData, panelName = Some pName\<rparr>\<rparr>,
                          op'))))"

fun forEach_obs ::
  "dayjs \<Rightarrow> (string \<times> panel) list \<Rightarrow> timeline list \<Rightarrow> object_prototype
     \<Rightarrow> (js_error + timeline list) \<times> object_prototype"
where
  "forEach_obs dj [] outData op = (Inr outData, op)"
| "forEach_obs dj ((pName, panelData) # rest) outData op =
     (let times = map effectiveDateTime (entries panelData) in
      case parseEntries op (Some (entries panelData)) (type panelData) of
        (Inl e, op') \<Rightarrow> (Inl e, op')
      | (Inr rData, op') \<Rightarrow>
          forEach_obs dj rest
            (outData @ [\<lparr>parsedTime = Some (parseTime dj times), rowData = Some rData,
                         panelName = Some pName\<rparr>])
            op')"

definition useAllTimelineData ::
  "dayjs \<Rightarrow> (string \<Rightarrow> patientResults) \<Rightarrow> object_prototype \<Rightarrow> string \<Rightarrow> string option
     \<Rightarrow> (js_error + timeline list hook_result) \<times> object_prototype"
where
  "useAllTimelineData dj usePatientResultsData op patientUuid panelUuid =
     (let r = usePatientResultsData patientUuid;
          not_ready = \<lparr>loaded = loaded r, error = error r, data = [empty_parsedTime]\<rparr>
      in case sortedObs r of
           None \<Rightarrow> (Inr not_ready, op)
         | Some obs \<Rightarrow>
             if \<not> loaded r \<or> error r \<noteq> None then (Inr not_ready, op)
             else
               (case forEach_obs dj obs [] op of
                  (Inl e, op') \<Rightarrow> (Inl e, op')
                | (Inr outData, op') \<Rightarrow>
                    (Inr \<lparr>loaded = True, error = None, data = outData\<rparr>, op')))"

text \<open>
  \<^verbatim>\<open>usePatientPanels\<close> returns the same placeholder list when the fetch is not
  ready, and the object from panel names to panel uuids otherwise.
  \<^verbatim>\<open>outData[key] = value.uuid\<close> makes an own property of \<open>outData\<close>, except for
  the key \<^verbatim>\<open>__proto__\<close>: there the assignment runs the inherited setter, which
  ignores a string, and \<open>outData\<close> stays as it is. The hook neither reads nor changes
  \<^verbatim>\<open>Object.prototype\<close>.
\<close>

datatype panels_data = Placeholder "timeline list" | PanelUuids "(string \<times> string) list"

definition usePatientPanels ::
  "(string \<Rightarrow> patientResults) \<Rightarrow> string \<Rightarrow> panels_data hook_result"
where
  "usePatientPanels usePatientResultsData patientUuid =
     (let r = usePatientResultsData patientUuid;
          not_ready = \<lparr>loaded = loaded r, error = error r,
                       data = Placeholder [empty_parsedTime]\<rparr>
      in case sortedObs r of
           None \<Rightarrow> not_ready
         | Some obs \<Rightarrow>
             if \<not> loaded r \<or> error r \<noteq> None then not_ready
             else \<lparr>loaded = True, error = None,
                   data = PanelUuids
                     (fold (\<lambda>(key, v) outData.
                              if key = ''__proto__'' then outData
                              else AList.update key (uuid v) outData) obs [])\<rparr>)"

subsection \<open>Sample data\<close>

definition three_times :: "string list" where
  "three_times = [''2023-01-05T08:00'', ''2023-01-05T09:30'', ''2023-06-20T10:00'']"

definition leaf :: "string \<Rightarrow> string \<Rightarrow> ObsRecord" where
  "leaf n t = ObsRecord n t (n @ ''@'' @ t) None"

definition lab_set :: "string \<Rightarrow> ObsRecord list \<Rightarrow> ObsRecord" where
  "lab_set t ms = ObsRecord ''Panel'' t (''Panel@'' @ t) (Some ms)"

text \<open>Five lab sets; Glucose is a member of the second and of the fifth only.\<close>

definition five_lab_sets :: "ObsRecord list" where
  "five_lab_sets =
     [lab_set ''d1'' [leaf ''Sodium'' ''d1''],
      lab_set ''d2'' [leaf ''Glucose'' ''d2'', leaf ''Sodium'' ''d2''],
      lab_set ''d3'' [],
      lab_set ''d4'' [leaf ''Sodium'' ''d4''],
      lab_set ''d5'' [leaf ''Glucose'' ''d5'']]"

text \<open>The same, with a member named \<^verbatim>\<open>__proto__\<close> in the place of the first Sodium.\<close>

definition five_lab_sets_proto :: "ObsRecord list" where
  "five_lab_sets_proto =
     [lab_set ''d1'' [leaf ''__proto__'' ''d1''],
      lab_set ''d2'' [leaf ''Glucose'' ''d2'', leaf ''Sodium'' ''d2''],
      lab_set ''d3'' [],
      lab_set ''d4'' [leaf ''Sodium'' ''d4''],
      lab_set ''d5'' [leaf ''Glucose'' ''d5'']]"

definition two_tests :: "ObsRecord list" where
  "two_tests = [leaf ''Glucose'' ''d1'', leaf ''Sodium'' ''d2'']"

text \<open>Two tests, the second one named \<^verbatim>\<open>constructor\<close>.\<close>

definition two_tests_constructor :: "ObsRecord list" where
  "two_tests_constructor = [leaf ''Glucose'' ''d1'', leaf ''constructor'' ''d2'']"

definition sample_obs :: "(string \<times> panel) list" where
  "sample_obs =
     [(''Chemistry'', \<lparr>uuid = ''panel-1'', type = ''LabSet'', entries = five_lab_sets\<rparr>),
      (''Sugar'', \<lparr>uuid = ''panel-2'', type = ''Test'', entries = two_tests\<rparr>)]"

text \<open>A fetch that has loaded, one that is still loading, and one that has failed.\<close>

definition loaded_fetch :: "string \<Rightarrow> patientResults" where
  "loaded_fetch patientUuid = \<lparr>loaded = True, error = None, sortedObs = Some sample_obs\<rparr>"

definition loading_fetch :: "string \<Rightarrow> patientResults" where
  "loading_fetch patientUuid = \<lparr>loaded = False, error = None, sortedObs = None\<rparr>"

definition failed_fetch :: "string \<Rightarrow> patientResults" where
  "failed_fetch patientUuid =
     \<lparr>loaded = True, error = Some (Error ''Network Error''), sortedObs = Some sample_obs\<rparr>"

section \<open>Properties\<close>

subsection \<open>The time axis\<close>

lemma parseTime_Nil:
  "parseTime dj [] = \<lparr>yearColumns = [], dayColumns = [], timeColumns = [], sortedTimes = []\<rparr>"
  by (simp add: parseTime_def)

lemma yearColumns_snoc:
  "yearColumns (parseTime dj (ts @ [t])) =
     find_or_push (\<lambda>c. year_toString dj t = year c)
       \<lparr>year = year_toString dj t, size_col = 1\<rparr> (yearColumns (parseTime dj ts))"
  by (simp add: parseTime_def parseTime_each_def Let_def split: prod.splits)

lemma dayColumns_snoc:
  "dayColumns (parseTime dj (ts @ [t])) =
     find_or_push (\<lambda>c. day_key dj t = (year c, day c))
       \<lparr>year = year_toString dj t, size_col = 1, day = format_DD_MMM dj t\<rparr>
       (dayColumns (parseTime dj ts))"
proof -
  have "(\<lambda>c::dayColumn. format_DD_MMM dj t = day c \<and> year_toString dj t = year c) =
        (\<lambda>c. day_key dj t = (year c, day c))"
    by (auto simp: day_key_def)
  then show ?thesis
    by (simp add: parseTime_def parseTime_each_def Let_def split: prod.splits)
qed

lemma timeColumns_eq: "timeColumns (parseTime dj ts) = map (format_HH_mm dj) ts"
proof (induction ts rule: rev_induct)
  case Nil
  then show ?case by (simp add: parseTime_Nil)
next
  case (snoc t ts)
  then show ?case
    by (simp add: parseTime_def parseTime_each_def Let_def split: prod.splits)
qed

lemma sortedTimes_eq: "sortedTimes (parseTime dj ts) = ts"
  by (simp add: parseTime_def split: prod.splits)

text \<open>On columns with distinct keys, the code's rule is the rule of the specification.\<close>

lemma first_seen_snoc:
  "first_seen (xs @ [x]) = (if x \<in> set xs then first_seen xs else first_seen xs @ [x])"
  by (simp add: first_seen_def)

lemma set_first_seen: "set (first_seen xs) = set xs"
  by (simp add: first_seen_def)

lemma distinct_first_seen: "distinct (first_seen xs)"
  by (simp add: first_seen_def)

lemma find_None_keys: "(find (\<lambda>c. k = key c) cs = None) = (k \<notin> set (map key cs))"
  by (induction cs) auto

lemma increment_found_distinct:
  "distinct (map key cs) \<Longrightarrow>
   increment_found (\<lambda>c. k = key c) cs =
     map (\<lambda>c. if key c = k then c\<lparr>size_col := size_col c + 1\<rparr> else c) cs"
proof (induction cs)
  case Nil
  then show ?case by simp
next
  case (Cons c cs)
  have "key c \<notin> set (map key cs)"
    using Cons.prems by simp
  then have "k = key c \<Longrightarrow>
      map (\<lambda>c. if key c = k then c\<lparr>size_col := size_col c + 1\<rparr> else c) cs = cs"
    by (induction cs) auto
  with Cons show ?case by auto
qed

lemma find_or_push_keyed:
  "distinct (map key cs) \<Longrightarrow>
   find_or_push (\<lambda>c. k = key c) new cs = spec_find_or_create key k new cs"
  using find_None_keys [of k key cs]
  by (auto simp: find_or_push_def spec_find_or_create_def increment_found_distinct
           split: option.splits)

lemma spec_find_or_create_counts:
  assumes "key new = k" and "size_col new = 1"
    and "\<And>y n. key (mk y n) = y" and "\<And>y n. size_col (mk y n) = n"
    and "\<And>y n. (mk y n)\<lparr>size_col := Suc n\<rparr> = mk y (Suc n)"
    and "mk k 1 = new"
  shows "spec_find_or_create key k new (map (\<lambda>y. mk y (count_list ys y)) (first_seen ys)) =
         map (\<lambda>y. mk y (count_list (ys @ [k]) y)) (first_seen (ys @ [k]))"
  using assms
  by (auto simp: spec_find_or_create_def first_seen_snoc set_first_seen comp_def image_iff
        count_list_0_iff)

lemma yearColumns_counts:
  "yearColumns (parseTime dj ts) =
     map (\<lambda>y. \<lparr>year = y, size_col = count_list (map (year_toString dj) ts) y\<rparr>)
       (first_seen (map (year_toString dj) ts))"
proof (induction ts rule: rev_induct)
  case Nil
  then show ?case by (simp add: parseTime_Nil first_seen_def)
next
  case (snoc t ts)
  let ?ys = "map (year_toString dj) ts"
  let ?mk = "\<lambda>y n. \<lparr>year = y, size_col = n\<rparr>"
  have d: "distinct (map year (yearColumns (parseTime dj ts)))"
    by (simp add: snoc.IH comp_def distinct_first_seen)
  have "yearColumns (parseTime dj (ts @ [t])) =
        spec_find_or_create year (year_toString dj t) (?mk (year_toString dj t) 1)
          (map (\<lambda>y. ?mk y (count_list ?ys y)) (first_seen ?ys))"
    using d by (simp add: yearColumns_snoc find_or_push_keyed snoc.IH)
  also have "\<dots> = map (\<lambda>y. ?mk y (count_list (?ys @ [year_toString dj t]) y))
                     (first_seen (?ys @ [year_toString dj t]))"
    by (rule spec_find_or_create_counts) simp_all
  finally show ?case by simp
qed

lemma dayColumns_counts:
  "dayColumns (parseTime dj ts) =
     map (\<lambda>k. \<lparr>year = fst k, size_col = count_list (map (day_key dj) ts) k, day = snd k\<rparr>)
       (first_seen (map (day_key dj) ts))"
proof (induction ts rule: rev_induct)
  case Nil
  then show ?case by (simp add: parseTime_Nil first_seen_def)
next
  case (snoc t ts)
  let ?ks = "map (day_key dj) ts"
  let ?key = "\<lambda>c::dayColumn. (year c, day c)"
  let ?mk = "\<lambda>k n. \<lparr>year = fst k, size_col = n, day = snd k\<rparr>"
  have d: "distinct (map ?key (dayColumns (parseTime dj ts)))"
    by (simp add: snoc.IH comp_def distinct_first_seen)
  have "dayColumns (parseTime dj (ts @ [t])) =
        spec_find_or_create ?key (day_key dj t) (?mk (day_key dj t) 1)
          (map (\<lambda>k. ?mk k (count_list ?ks k)) (first_seen ?ks))"
  proof -
    have "\<lparr>year = year_toString dj t, size_col = 1, day = format_DD_MMM dj t\<rparr> =
          ?mk (day_key dj t) 1"
      by (simp add: day_key_def)
    then show ?thesis
      using d find_or_push_keyed [of ?key "dayColumns (parseTime dj ts)" "day_key dj t"]
      unfolding dayColumns_snoc snoc.IH by simp
  qed
  also have "\<dots> = map (\<lambda>k. ?mk k (count_list (?ks @ [day_key dj t]) k))
                     (first_seen (?ks @ [day_key dj t]))"
    by (rule spec_find_or_create_counts) simp_all
  finally show ?case by simp
qed

text \<open>
  Claim C1. \<^verbatim>\<open>parseTime\<close> builds \<open>yearColumns\<close> by find-or-create on the year: the
  columns after one more timestamp are those before it, with the size of the column of
  that year incremented if there is one anywhere in the list, and with a new column of
  size 1 appended otherwise. Hence the years of the input appear once each, in the order of
  their first occurrence, each with the number of timestamps of that year as its size,
  also when a year comes back after another one. \<open>dayColumns\<close> follows the same rule on
  the pair of year and day label.
\<close>

theorem parseTime_find_or_create:
  "yearColumns (parseTime dj []) = [] \<and>
   dayColumns (parseTime dj []) = [] \<and>
   yearColumns (parseTime dj (ts @ [t])) =
     spec_find_or_create year (year_toString dj t)
       \<lparr>year = year_toString dj t, size_col = 1\<rparr> (yearColumns (parseTime dj ts)) \<and>
   dayColumns (parseTime dj (ts @ [t])) =
     spec_find_or_create (\<lambda>c. (year c, day c)) (day_key dj t)
       \<lparr>year = year_toString dj t, size_col = 1, day = format_DD_MMM dj t\<rparr>
       (dayColumns (parseTime dj ts)) \<and>
   yearColumns (parseTime dj ts) =
     map (\<lambda>y. \<lparr>year = y, size_col = count_list (map (year_toString dj) ts) y\<rparr>)
       (first_seen (map (year_toString dj) ts)) \<and>
   dayColumns (parseTime dj ts) =
     map (\<lambda>k. \<lparr>year = fst k, size_col = count_list (map (day_key dj) ts) k, day = snd k\<rparr>)
       (first_seen (map (day_key dj) ts))"
proof -
  have dy: "distinct (map year (yearColumns (parseTime dj ts)))"
    by (simp add: yearColumns_counts comp_def distinct_first_seen)
  have dd: "distinct (map (\<lambda>c. (year c, day c)) (dayColumns (parseTime dj ts)))"
    by (simp add: dayColumns_counts comp_def distinct_first_seen)
  have y: "yearColumns (parseTime dj (ts @ [t])) =
     spec_find_or_create year (year_toString dj t)
       \<lparr>year = year_toString dj t, size_col = 1\<rparr> (yearColumns (parseTime dj ts))"
    unfolding yearColumns_snoc using dy by (rule find_or_push_keyed)
  have d: "dayColumns (parseTime dj (ts @ [t])) =
     spec_find_or_create (\<lambda>c. (year c, day c)) (day_key dj t)
       \<lparr>year = year_toString dj t, size_col = 1, day = format_DD_MMM dj t\<rparr>
       (dayColumns (parseTime dj ts))"
    unfolding dayColumns_snoc using dd by (rule find_or_push_keyed)
  show ?thesis
    using y d yearColumns_counts [of dj ts] dayColumns_counts [of dj ts]
    by (simp add: parseTime_Nil)
qed

text \<open>
  The year 2022 before and after 2023: one column for 2022, of size 2, and one for 2023.
\<close>

theorem parseTime_find_or_create_witness:
  "yearColumns (parseTime sample_dayjs
      [''2022-01-05T08:00'', ''2023-01-05T09:30'', ''2022-06-20T10:00'']) =
     [\<lparr>year = ''2022'', size_col = 2\<rparr>, \<lparr>year = ''2023'', size_col = 1\<rparr>] \<and>
   dayColumns (parseTime sample_dayjs
      [''2022-01-05T08:00'', ''2023-01-05T09:30'', ''2022-06-20T10:00'']) =
     [\<lparr>year = ''2022'', size_col = 1, day = ''05 - Jan''\<rparr>,
      \<lparr>year = ''2023'', size_col = 1, day = ''05 - Jan''\<rparr>,
      \<lparr>year = ''2022'', size_col = 1, day = ''20 - Jun''\<rparr>]"
  using parseTime_find_or_create
    [of sample_dayjs "[''2022-01-05T08:00'', ''2023-01-05T09:30'', ''2022-06-20T10:00'']" "[]"]
  by (simp add: sample_dayjs_def first_seen_def day_key_def month_abbreviation_def)

lemma sum_increment_found:
  "find p cs = Some c \<Longrightarrow>
   sum_list (map size_col (increment_found p cs)) = Suc (sum_list (map size_col cs))"
  by (induction cs) (auto split: if_splits)

lemma sum_find_or_push:
  "size_col new = 1 \<Longrightarrow>
   sum_list (map size_col (find_or_push p new cs)) = Suc (sum_list (map size_col cs))"
  by (simp add: find_or_push_def sum_increment_found split: option.splits)

lemma fold_parseTime_each_sums:
  "fold (parseTime_each dj) ts (yc, dc, tc) = (yc', dc', tc') \<Longrightarrow>
     sum_list (map size_col yc') = sum_list (map size_col yc) + length ts \<and>
     sum_list (map size_col dc') = sum_list (map size_col dc) + length ts \<and>
     length tc' = length tc + length ts"
proof (induction ts arbitrary: yc dc tc)
  case Nil
  then show ?case by simp
next
  case (Cons t ts)
  then show ?case
    by (simp add: parseTime_each_def Let_def sum_find_or_push)
qed

lemma parseTime_sums:
  "sum_list (map size_col (yearColumns (parseTime dj ts))) = length ts \<and>
   sum_list (map size_col (dayColumns (parseTime dj ts))) = length ts \<and>
   length (timeColumns (parseTime dj ts)) = length ts"
proof -
  obtain yc dc tc where f: "fold (parseTime_each dj) ts ([], [], []) = (yc, dc, tc)"
    by (cases "fold (parseTime_each dj) ts ([], [], [])") auto
  from fold_parseTime_each_sums [OF f] show ?thesis
    by (simp add: parseTime_def f)
qed

text \<open>
  Claim C2. For a non-empty list of timestamps, the number of time labels, the length of
  \<open>sortedTimes\<close>, the sum of the sizes of the year columns and the sum of the sizes of the
  day columns are all equal, and \<open>sortedTimes\<close> is the input as it came.
\<close>

theorem parseTime_round_trip:
  assumes "ts \<noteq> []"
  shows "length (timeColumns (parseTime dj ts)) = length (sortedTimes (parseTime dj ts)) \<and>
         length (sortedTimes (parseTime dj ts)) =
           sum_list (map size_col (yearColumns (parseTime dj ts))) \<and>
         sum_list (map size_col (yearColumns (parseTime dj ts))) =
           sum_list (map size_col (dayColumns (parseTime dj ts))) \<and>
         sortedTimes (parseTime dj ts) = ts"
  using parseTime_sums [of dj ts] by (simp add: sortedTimes_eq)

theorem parseTime_round_trip_witness:
  "three_times \<noteq> [] \<and>
   length (timeColumns (parseTime sample_dayjs three_times)) = 3 \<and>
   length (sortedTimes (parseTime sample_dayjs three_times)) = 3 \<and>
   sum_list (map size_col (yearColumns (parseTime sample_dayjs three_times))) = 3 \<and>
   sum_list (map size_col (dayColumns (parseTime sample_dayjs three_times))) = 3 \<and>
   sortedTimes (parseTime sample_dayjs three_times) = three_times"
proof -
  have ne: "three_times \<noteq> []"
    by (simp add: three_times_def)
  have len: "length three_times = 3"
    by (simp add: three_times_def)
  from parseTime_round_trip [OF ne, of sample_dayjs] ne len show ?thesis
    by auto
qed

subsection \<open>The entry grouper\<close>

text \<open>Reading a cell after one assignment to an own row.\<close>

lemma obs_at_assign_index:
  "obs_at (assign_index row j m) i = (if i = j then Some m else obs_at row i)"
  by (auto simp: obs_at_def assign_index_def nth_append nth_Cons' split: cell.splits)

lemma obs_at_Nil: "obs_at [] i = None"
  by (simp add: obs_at_def)

lemma row_at_Nil: "row_at [] n i = None"
  by (simp add: row_at_def)

lemma row_at_own_place:
  "row_at (own_place j m rows) n i =
     (if n = name m \<and> i = j then Some m else row_at rows n i)"
  by (simp add: row_at_def own_place_def Let_def AList.update_conv' obs_at_assign_index
      obs_at_Nil split: option.splits)

lemma find_snoc:
  "find P (xs @ [x]) =
     (case find P xs of Some y \<Rightarrow> Some y | None \<Rightarrow> if P x then Some x else None)"
  by (induction xs) auto

text \<open>
  The shape of the rows: \<open>well_built\<close> is kept by every assignment to an own row.
\<close>

lemma set_update_cases:
  "(n, r) \<in> set (AList.update k v al) \<Longrightarrow> (n = k \<and> r = v) \<or> (n, r) \<in> set al"
  by (induction al) (auto split: if_splits)

lemma assign_index_shape:
  assumes "row = [] \<or> (\<exists>m. last row = Obs m)" and "Undefined \<notin> set row"
  shows "assign_index row j m \<noteq> [] \<and> (\<exists>m'. last (assign_index row j m) = Obs m') \<and>
         length (assign_index row j m) = max (length row) (Suc j) \<and>
         Undefined \<notin> set (assign_index row j m)"
proof (cases "j < length row")
  case True
  then have ne: "row \<noteq> []" by auto
  with assms have "\<exists>m'. last (row[j := Obs m]) = Obs m'"
    by (auto simp: last_list_update)
  moreover have "Undefined \<notin> set (row[j := Obs m])"
    using assms(2) set_update_subset_insert [of row j "Obs m"] by auto
  ultimately show ?thesis using True ne by (simp add: assign_index_def max_def)
next
  case False
  then show ?thesis using assms(2) by (auto simp: assign_index_def max_def)
qed

lemma well_built_mono: "well_built k rows \<Longrightarrow> k \<le> k' \<Longrightarrow> well_built k' rows"
  by (fastforce simp: well_built_def)

lemma well_built_Nil: "well_built 0 []"
  by (simp add: well_built_def)

lemma well_built_own_place:
  assumes "well_built k rows" and "j < k"
  shows "well_built k (own_place j m rows)"
proof -
  let ?row = "case map_of rows (name m) of Some r \<Rightarrow> r | None \<Rightarrow> []"
  have old: "?row = [] \<or> (\<exists>m'. last ?row = Obs m')" "Undefined \<notin> set ?row" "length ?row \<le> k"
    using assms(1) by (auto simp: well_built_def split: option.splits dest!: map_of_SomeD)
  note new = assign_index_shape [OF old(1,2), of j m]
  have "length (assign_index ?row j m) \<le> k"
    using new old(3) assms(2) by simp
  with new assms(1) show ?thesis
    unfolding well_built_def own_place_def Let_def
    by (auto simp: AList.distinct_update dest!: set_update_cases)
qed

text \<open>
  A name that inherits nothing is placed in an own row, and \<^verbatim>\<open>Object.prototype\<close>
  stays as it is.
\<close>

lemma place_plain:
  "inherited op (name m) = None \<Longrightarrow> place j m (rows, op) = (own_place j m rows, op)"
  by (simp add: place_def split: option.splits)

lemma forEach_Test_plain:
  assumes "\<forall>e \<in> set es. inherited op (name e) = None"
  shows "\<exists>rows'. forEach_Test es k (rows, op) = (rows', op) \<and>
           (\<forall>n i. row_at rows' n i =
              (if k \<le> i \<and> i < k + length es \<and> name (es ! (i - k)) = n
               then Some (es ! (i - k)) else row_at rows n i)) \<and>
           (well_built k rows \<longrightarrow> well_built (k + length es) rows')"
  using assms
proof (induction es arbitrary: k rows)
  case Nil
  then show ?case by auto
next
  case (Cons e es)
  let ?rows1 = "own_place k e rows"
  have step: "forEach_Test (e # es) k (rows, op) = forEach_Test es (Suc k) (?rows1, op)"
    using Cons.prems by (simp add: place_plain)
  from Cons.prems have "\<forall>e \<in> set es. inherited op (name e) = None"
    by simp
  from Cons.IH [OF this, of "Suc k" ?rows1]
  obtain rows' where run: "forEach_Test es (Suc k) (?rows1, op) = (rows', op)"
    and cells: "\<And>n i. row_at rows' n i =
              (if Suc k \<le> i \<and> i < Suc k + length es \<and> name (es ! (i - Suc k)) = n
               then Some (es ! (i - Suc k)) else row_at ?rows1 n i)"
    and shape: "well_built (Suc k) ?rows1 \<Longrightarrow> well_built (Suc k + length es) rows'"
    by blast
  have "\<forall>n i. row_at rows' n i =
              (if k \<le> i \<and> i < k + length (e # es) \<and> name ((e # es) ! (i - k)) = n
               then Some ((e # es) ! (i - k)) else row_at rows n i)"
    by (auto simp: cells row_at_own_place nth_Cons' Suc_diff_le)
  moreover have "well_built k rows \<longrightarrow> well_built (k + length (e # es)) rows'"
    using shape by (simp add: well_built_own_place well_built_mono)
  ultimately show ?case
    using step run by simp
qed

lemma fold_place_plain:
  "\<forall>m \<in> set ms. inherited op (name m) = None \<Longrightarrow>
   fold (place j) ms (rows, op) = (fold (own_place j) ms rows, op)"
  by (induction ms arbitrary: rows) (simp_all add: place_plain)

lemma row_at_fold_own_place:
  "row_at (fold (own_place j) ms rows) n i =
     (if i = j then (case find (\<lambda>m. name m = n) (rev ms) of Some m \<Rightarrow> Some m
                     | None \<Rightarrow> row_at rows n i)
      else row_at rows n i)"
proof (induction ms arbitrary: rows)
  case Nil
  then show ?case by simp
next
  case (Cons m ms)
  show ?case
    by (auto simp: Cons.IH row_at_own_place find_snoc split: option.splits)
qed

lemma well_built_fold_own_place:
  "well_built k rows \<Longrightarrow> j < k \<Longrightarrow> well_built k (fold (own_place j) ms rows)"
  by (induction ms arbitrary: rows) (simp_all add: well_built_own_place)

lemma forEach_LabSet_plain:
  assumes "\<forall>e \<in> set es. \<exists>ms. members e = Some ms \<and>
             (\<forall>m \<in> set ms. inherited op (name m) = None)"
  shows "\<exists>rows'. forEach_LabSet es k (rows, op) = (Inr rows', op) \<and>
           (\<forall>n i. row_at rows' n i =
              (if k \<le> i \<and> i < k + length es
               then (case members (es ! (i - k)) of
                       None \<Rightarrow> None
                     | Some ms \<Rightarrow>
                         (case find (\<lambda>m. name m = n) (rev ms) of
                            Some m \<Rightarrow> Some m
                          | None \<Rightarrow> row_at rows n i))
               else row_at rows n i)) \<and>
           (well_built k rows \<longrightarrow> well_built (k + length es) rows')"
  using assms
proof (induction es arbitrary: k rows)
  case Nil
  then show ?case by auto
next
  case (Cons e es)
  from Cons.prems obtain ms where ms: "members e = Some ms"
    and plain: "\<forall>m \<in> set ms. inherited op (name m) = None"
    by auto
  let ?rows1 = "fold (own_place k) ms rows"
  have step: "forEach_LabSet (e # es) k (rows, op) = forEach_LabSet es (Suc k) (?rows1, op)"
    by (simp add: ms fold_place_plain [OF plain])
  from Cons.prems have "\<forall>e \<in> set es. \<exists>ms. members e = Some ms \<and>
             (\<forall>m \<in> set ms. inherited op (name m) = None)"
    by simp
  from Cons.IH [OF this, of "Suc k" ?rows1]
  obtain rows' where run: "forEach_LabSet es (Suc k) (?rows1, op) = (Inr rows', op)"
    and cells: "\<And>n i. row_at rows' n i =
              (if Suc k \<le> i \<and> i < Suc k + length es
               then (case members (es ! (i - Suc k)) of
                       None \<Rightarrow> None
                     | Some ms \<Rightarrow>
                         (case find (\<lambda>m. name m = n) (rev ms) of
                            Some m \<Rightarrow> Some m
                          | None \<Rightarrow> row_at ?rows1 n i))
               else row_at ?rows1 n i)"
    and shape: "well_built (Suc k) ?rows1 \<Longrightarrow> well_built (Suc k + length es) rows'"
    by blast
  have "\<forall>n i. row_at rows' n i =
              (if k \<le> i \<and> i < k + length (e # es)
               then (case members ((e # es) ! (i - k)) of
                       None \<Rightarrow> None
                     | Some ms \<Rightarrow>
                         (case find (\<lambda>m. name m = n) (rev ms) of
                            Some m \<Rightarrow> Some m
                          | None \<Rightarrow> row_at rows n i))
               else row_at rows n i)"
    by (auto simp: cells ms row_at_fold_own_place nth_Cons' Suc_diff_le split: option.splits)
  moreover have "well_built k rows \<longrightarrow> well_built (k + length (e # es)) rows'"
    using shape by (simp add: well_built_fold_own_place well_built_mono)
  ultimately show ?case
    using step run by simp
qed

text \<open>
  Whatever the names, the grouper for \<^verbatim>\<open>LabSet\<close> returns when every entry has
  members and throws when one has none.
\<close>

lemma forEach_LabSet_total:
  "\<forall>e \<in> set es. members e \<noteq> None \<Longrightarrow> \<exists>rows'. fst (forEach_LabSet es k st) = Inr rows'"
proof (induction es arbitrary: k st)
  case Nil
  then show ?case by simp
next
  case (Cons e es)
  from Cons.prems obtain ms where ms: "members e = Some ms"
    by auto
  from Cons.prems have "\<forall>e \<in> set es. members e \<noteq> None"
    by simp
  from Cons.IH [OF this] show ?case
    by (simp add: ms)
qed

lemma forEach_LabSet_fails:
  "\<exists>e \<in> set es. members e = None \<Longrightarrow> fst (forEach_LabSet es k st) = Inl TypeError"
proof (induction es arbitrary: k st)
  case Nil
  then show ?case by simp
next
  case (Cons e es)
  show ?case
  proof (cases "members e")
    case None
    then show ?thesis by simp
  next
    case (Some ms)
    with Cons.prems have "\<exists>e \<in> set es. members e = None"
      by auto
    from Cons.IH [OF this] show ?thesis
      by (simp add: Some)
  qed
qed

lemma parseEntries_LabSet_fst:
  "fst (parseEntries op (Some es) ''LabSet'') =
     (case forEach_LabSet es 0 ([], op) of
        (Inl e, op') \<Rightarrow> Inl e
      | (Inr rows, op') \<Rightarrow> Inr (respread op' rows))"
  by (simp add: parseEntries_def split: prod.splits sum.splits)

lemma parseEntries_other:
  "kind \<noteq> ''LabSet'' \<Longrightarrow> kind \<noteq> ''Test'' \<Longrightarrow> parseEntries op es kind = (Inr [], op)"
  by (simp add: parseEntries_def respread_def)

text \<open>The last pass copies every row in place, since the keys of an object are distinct.\<close>

lemma fold_update_spread:
  "distinct (map fst (pre @ xs)) \<Longrightarrow>
   fold (\<lambda>(key, row). AList.update key (spread op row)) xs
     (map (\<lambda>(key, row). (key, spread op row)) pre @ xs) =
   map (\<lambda>(key, row). (key, spread op row)) (pre @ xs)"
proof (induction xs arbitrary: pre)
  case Nil
  then show ?case by simp
next
  case (Cons x xs)
  obtain k v where x: "x = (k, v)" by (cases x)
  have notin: "k \<notin> fst ` set (map (\<lambda>(key, row). (key, spread op row)) pre)"
    using Cons.prems by (auto simp: x image_iff)
  have upd: "AList.update k (spread op v)
               (map (\<lambda>(key, row). (key, spread op row)) pre @ (k, v) # xs) =
             map (\<lambda>(key, row). (key, spread op row)) (pre @ [(k, v)]) @ xs"
    using notin by (induction pre) auto
  have "distinct (map fst ((pre @ [(k, v)]) @ xs))" using Cons.prems by (simp add: x)
  from Cons.IH [OF this] show ?case by (simp add: x upd)
qed

lemma respread_distinct:
  "distinct (map fst rows) \<Longrightarrow>
   respread op rows = map (\<lambda>(key, row). (key, spread op row)) rows"
  using fold_update_spread [of "[]" rows] by (simp add: respread_def)

lemma length_spread: "length (spread op r) = length r"
  by (simp add: spread_def)

lemma spread_nth:
  "i < length r \<Longrightarrow>
   spread op r ! i =
     (case r ! i of
        Hole \<Rightarrow> (case map_of op (decimal i) of Some m \<Rightarrow> Obs m | None \<Rightarrow> Undefined)
      | Undefined \<Rightarrow> Undefined
      | Obs m \<Rightarrow> Obs m)"
  by (simp add: spread_def split: cell.splits)

lemma Hole_notin_spread: "Hole \<notin> set (spread op r)"
  by (auto simp: in_set_conv_nth length_spread spread_nth split: cell.splits option.splits)

lemma last_spread: "r \<noteq> [] \<Longrightarrow> last r = Obs m \<Longrightarrow> last (spread op r) = Obs m"
  by (simp add: last_conv_nth length_spread spread_nth spread_def)

lemma obs_at_spread:
  "(i < length r \<Longrightarrow> map_of op (decimal i) = None) \<Longrightarrow> obs_at (spread op r) i = obs_at r i"
  by (auto simp: obs_at_def length_spread spread_nth split: cell.splits)

lemma keys_spread:
  "map fst (map (\<lambda>(key, row). (key, spread op row)) rows) = map fst rows"
  by (induction rows) auto

lemma map_of_spread:
  "map_of (map (\<lambda>(key, row). (key, spread op row)) rows) n =
     map_option (spread op) (map_of rows n)"
  by (induction rows) auto

text \<open>
  The grouper on names that inherit nothing, from a prototype with no record under an
  index of the entries: it returns the copies of the rows it has built, these rows are
  well built, and each of their cells holds what the input records there.
\<close>

lemma parseEntries_plain:
  assumes kind: "kind = ''LabSet'' \<or> kind = ''Test''"
    and present: "kind = ''LabSet'' \<longrightarrow> (\<forall>e \<in> set es. members e \<noteq> None)"
    and plain: "\<forall>m \<in> set (placed kind es). inherited op (name m) = None"
  shows "\<exists>built. parseEntries op (Some es) kind =
                   (Inr (map (\<lambda>(key, row). (key, spread op row)) built), op) \<and>
           well_built (length es) built \<and>
           (\<forall>n i. row_at built n i = recorded kind es n i)"
  using kind
proof
  assume LabSet: "kind = ''LabSet''"
  have "\<forall>e \<in> set es. \<exists>ms. members e = Some ms \<and>
          (\<forall>m \<in> set ms. inherited op (name m) = None)"
  proof
    fix e
    assume e: "e \<in> set es"
    with present LabSet obtain ms where ms: "members e = Some ms"
      by auto
    have "set ms \<subseteq> set (placed kind es)"
      using e ms by (force simp: placed_def LabSet)
    with plain ms show "\<exists>ms. members e = Some ms \<and>
          (\<forall>m \<in> set ms. inherited op (name m) = None)"
      by auto
  qed
  from forEach_LabSet_plain [OF this, of 0 "[]"]
  obtain built where run: "forEach_LabSet es 0 ([], op) = (Inr built, op)"
    and cells: "\<And>n i. row_at built n i =
              (if 0 \<le> i \<and> i < 0 + length es
               then (case members (es ! (i - 0)) of
                       None \<Rightarrow> None
                     | Some ms \<Rightarrow>
                         (case find (\<lambda>m. name m = n) (rev ms) of
                            Some m \<Rightarrow> Some m
                          | None \<Rightarrow> row_at [] n i))
               else row_at [] n i)"
    and shape: "well_built 0 [] \<Longrightarrow> well_built (0 + length es) built"
    by blast
  have wb: "well_built (length es) built"
    using shape well_built_Nil by simp
  then have "distinct (map fst built)"
    by (simp add: well_built_def)
  then have "parseEntries op (Some es) kind =
               (Inr (map (\<lambda>(key, row). (key, spread op row)) built), op)"
    by (simp add: parseEntries_def LabSet run respread_distinct)
  moreover have "\<forall>n i. row_at built n i = recorded kind es n i"
    by (auto simp: cells recorded_def LabSet row_at_Nil split: option.splits)
  ultimately show ?thesis
    using wb by blast
next
  assume Test: "kind = ''Test''"
  then have "\<forall>e \<in> set es. inherited op (name e) = None"
    using plain by (simp add: placed_def)
  from forEach_Test_plain [OF this, of 0 "[]"]
  obtain built where run: "forEach_Test es 0 ([], op) = (built, op)"
    and cells: "\<And>n i. row_at built n i =
              (if 0 \<le> i \<and> i < 0 + length es \<and> name (es ! (i - 0)) = n
               then Some (es ! (i - 0)) else row_at [] n i)"
    and shape: "well_built 0 [] \<Longrightarrow> well_built (0 + length es) built"
    by blast
  have wb: "well_built (length es) built"
    using shape well_built_Nil by simp
  then have "distinct (map fst built)"
    by (simp add: well_built_def)
  then have "parseEntries op (Some es) kind =
               (Inr (map (\<lambda>(key, row). (key, spread op row)) built), op)"
    by (simp add: parseEntries_def Test run respread_distinct)
  moreover have "\<forall>n i. row_at built n i = recorded kind es n i"
    by (auto simp: cells recorded_def Test row_at_Nil)
  ultimately show ?thesis
    using wb by blast
qed

text \<open>A row of well built rows, read against what the rows hold for its name.\<close>

lemma well_built_row:
  assumes "well_built k built" and "(n, r) \<in> set built"
  shows "map_of built n = Some r \<and> r \<noteq> [] \<and> length r \<le> k \<and> Undefined \<notin> set r \<and>
         row_at built n (length r - 1) \<noteq> None \<and>
         (\<forall>i. row_at built n i = obs_at r i)"
proof -
  from assms have d: "distinct (map fst built)"
    and r: "r \<noteq> []" "\<exists>m. last r = Obs m" "length r \<le> k" "Undefined \<notin> set r"
    by (auto simp: well_built_def)
  from d assms(2) have look: "map_of built n = Some r"
    by simp
  then have cells: "\<forall>i. row_at built n i = obs_at r i"
    by (simp add: row_at_def)
  from r(1,2) have "obs_at r (length r - 1) \<noteq> None"
    by (auto simp: obs_at_def last_conv_nth)
  with look cells r show ?thesis
    by simp
qed

text \<open>
  On such input every cell of the result holds what the input records there: the column
  of a record is the index of its top-level entry.
\<close>

lemma parseEntries_plain_cells:
  assumes kind: "kind = ''LabSet'' \<or> kind = ''Test''"
    and present: "kind = ''LabSet'' \<longrightarrow> (\<forall>e \<in> set es. members e \<noteq> None)"
    and plain: "\<forall>m \<in> set (placed kind es). inherited op (name m) = None"
    and clean: "\<forall>i < length es. map_of op (decimal i) = None"
  shows "\<exists>rows. parseEntries op (Some es) kind = (Inr rows, op) \<and>
           (\<forall>n i. row_at rows n i = recorded kind es n i)"
proof -
  from parseEntries_plain [OF kind present plain]
  obtain built where run: "parseEntries op (Some es) kind =
                   (Inr (map (\<lambda>(key, row). (key, spread op row)) built), op)"
    and wb: "well_built (length es) built"
    and cells: "\<And>n i. row_at built n i = recorded kind es n i"
    by blast
  let ?rows = "map (\<lambda>(key, row). (key, spread op row)) built"
  have "row_at ?rows n i = row_at built n i" for n i
  proof (cases "map_of built n")
    case None
    then show ?thesis
      by (simp add: row_at_def map_of_spread)
  next
    case (Some r0)
    then have "(n, r0) \<in> set built"
      by (rule map_of_SomeD)
    from well_built_row [OF wb this] have "length r0 \<le> length es"
      by blast
    with clean have "i < length r0 \<Longrightarrow> map_of op (decimal i) = None"
      by simp
    then have "obs_at (spread op r0) i = obs_at r0 i"
      by (rule obs_at_spread)
    then show ?thesis
      by (simp add: row_at_def map_of_spread Some)
  qed
  with run cells show ?thesis
    by simp
qed

text \<open>
  Claim C3 fails on the code. In five lab sets with Glucose a member of the second and of
  the fifth, let the first have a member named \<^verbatim>\<open>__proto__\<close>. From a pristine
  prototype the grouper returns a Glucose row whose index 0 holds that record, where the
  claim has no record; and the record itself is in no row of its own name, where the claim
  places it at index 0.
\<close>

theorem parseEntries_LabSet_inherited_name:
  "fst (parseEntries pristine (Some five_lab_sets_proto) ''LabSet'') =
     Inr [(''Glucose'', [Obs (leaf ''__proto__'' ''d1''), Obs (leaf ''Glucose'' ''d2''),
                         Undefined, Undefined, Obs (leaf ''Glucose'' ''d5'')]),
          (''Sodium'', [Obs (leaf ''__proto__'' ''d1''), Obs (leaf ''Sodium'' ''d2''),
                        Undefined, Obs (leaf ''Sodium'' ''d4'')])] \<and>
   recorded ''LabSet'' five_lab_sets_proto ''Glucose'' 0 = None \<and>
   recorded ''LabSet'' five_lab_sets_proto ''__proto__'' 0 = Some (leaf ''__proto__'' ''d1'')"
  by code_simp

text \<open>
  Claim C4 fails on the code. For a Glucose test followed by a test named
  \<^verbatim>\<open>constructor\<close> the grouper returns one row, for two distinct names, and the
  second entry is in no row.
\<close>

theorem parseEntries_Test_inherited_name:
  "fst (parseEntries pristine (Some two_tests_constructor) ''Test'') =
     Inr [(''Glucose'', [Obs (leaf ''Glucose'' ''d1'')])] \<and>
   length (remdups (map name two_tests_constructor)) = 2"
  by code_simp

text \<open>
  Claim C5 fails as stated. With a Glucose entry at index 0 and a Sodium entry at index 1,
  the largest index of the input is 1, and the Glucose row has length 1: it has no slot at
  index 1.
\<close>

theorem parseEntries_padding_counterexample:
  "fst (parseEntries pristine (Some two_tests) ''Test'') =
     Inr [(''Glucose'', [Obs (leaf ''Glucose'' ''d1'')]),
          (''Sodium'', [Undefined, Obs (leaf ''Sodium'' ''d2'')])] \<and>
   \<not> every_row_reaches (length two_tests - 1)
       [(''Glucose'', [Obs (leaf ''Glucose'' ''d1'')]),
        (''Sodium'', [Undefined, Obs (leaf ''Sodium'' ''d2'')])]"
proof -
  have "fst (parseEntries pristine (Some two_tests) ''Test'') =
     Inr [(''Glucose'', [Obs (leaf ''Glucose'' ''d1'')]),
          (''Sodium'', [Undefined, Obs (leaf ''Sodium'' ''d2'')])]"
    by code_simp
  then show ?thesis
    by (simp add: every_row_reaches_def two_tests_def)
qed

text \<open>
  Claim C5, amended. Take a recognised kind, entries that all have members if the kind is
  \<^verbatim>\<open>LabSet\<close>, records whose names inherit nothing from \<^verbatim>\<open>Object.prototype\<close>,
  and a prototype with no record under an index of the entries. Then the grouper returns
  and leaves the prototype as it is; the rows are those of the names that the input
  records somewhere, once each; and every row is addressable exactly up to the last index
  at which the input records its name: the slot at that index is its last one, every slot
  up to it holds the record that the input has there, or an explicit
  \<^verbatim>\<open>undefined\<close> where it has none (never a hole), and the input records nothing
  for that name beyond. A row is not padded up to the largest index of the input.
\<close>

theorem parseEntries_rows_dense:
  assumes "kind = ''LabSet'' \<or> kind = ''Test''"
    and "kind = ''LabSet'' \<longrightarrow> (\<forall>e \<in> set es. members e \<noteq> None)"
    and "\<forall>m \<in> set (placed kind es). inherited op (name m) = None"
    and "\<forall>i < length es. map_of op (decimal i) = None"
  shows "\<exists>rows. parseEntries op (Some es) kind = (Inr rows, op) \<and>
           distinct (map fst rows) \<and>
           (\<forall>n. (n \<in> fst ` set rows) = (\<exists>i. recorded kind es n i \<noteq> None)) \<and>
           (\<forall>(n, r) \<in> set rows.
              r \<noteq> [] \<and> length r \<le> length es \<and>
              recorded kind es n (length r - 1) \<noteq> None \<and>
              (\<forall>i. length r \<le> i \<longrightarrow> recorded kind es n i = None) \<and>
              (\<forall>i < length r.
                 r ! i = (case recorded kind es n i of
                            Some m \<Rightarrow> Obs m
                          | None \<Rightarrow> Undefined)))"
proof -
  from parseEntries_plain [OF assms(1-3)]
  obtain built where run: "parseEntries op (Some es) kind =
                   (Inr (map (\<lambda>(key, row). (key, spread op row)) built), op)"
    and wb: "well_built (length es) built"
    and cells: "\<And>n i. row_at built n i = recorded kind es n i"
    by blast
  let ?rows = "map (\<lambda>(key, row). (key, spread op row)) built"
  have d: "distinct (map fst ?rows)"
    using wb by (simp only: keys_spread) (simp add: well_built_def)
  have ks: "fst ` set ?rows = fst ` set built"
    by force
  have keys: "(n \<in> fst ` set ?rows) = (\<exists>i. recorded kind es n i \<noteq> None)" for n
  proof
    assume "n \<in> fst ` set ?rows"
    then have "n \<in> fst ` set built"
      by (simp only: ks)
    then obtain r where "(n, r) \<in> set built"
      by auto
    from well_built_row [OF wb this] have "row_at built n (length r - 1) \<noteq> None"
      by blast
    then show "\<exists>i. recorded kind es n i \<noteq> None"
      by (auto simp: cells)
  next
    assume "\<exists>i. recorded kind es n i \<noteq> None"
    then obtain i where "row_at built n i \<noteq> None"
      by (auto simp: cells)
    then have "map_of built n \<noteq> None"
      by (auto simp: row_at_def split: option.splits)
    then have "n \<in> fst ` set built"
      by (simp add: map_of_eq_None_iff)
    then show "n \<in> fst ` set ?rows"
      by (simp only: ks)
  qed
  have rows: "r \<noteq> [] \<and> length r \<le> length es \<and>
              recorded kind es n (length r - 1) \<noteq> None \<and>
              (\<forall>i. length r \<le> i \<longrightarrow> recorded kind es n i = None) \<and>
              (\<forall>i < length r.
                 r ! i = (case recorded kind es n i of
                            Some m \<Rightarrow> Obs m
                          | None \<Rightarrow> Undefined))" if "(n, r) \<in> set ?rows" for n r
  proof -
    from that obtain r0 where r0: "(n, r0) \<in> set built" and r: "r = spread op r0"
      by auto
    from well_built_row [OF wb r0]
    have ne: "r0 \<noteq> []" and len: "length r0 \<le> length es" and un: "Undefined \<notin> set r0"
      and top0: "row_at built n (length r0 - 1) \<noteq> None"
      and read0: "\<And>i. row_at built n i = obs_at r0 i"
      by blast+
    from top0 have top: "recorded kind es n (length r0 - 1) \<noteq> None"
      by (simp add: cells)
    from read0 have read: "\<And>i. recorded kind es n i = obs_at r0 i"
      by (simp add: cells)
    have beyond: "\<forall>i. length r0 \<le> i \<longrightarrow> recorded kind es n i = None"
      by (simp add: read obs_at_def)
    have slots: "\<forall>i < length r0.
        spread op r0 ! i = (case recorded kind es n i of Some m \<Rightarrow> Obs m | None \<Rightarrow> Undefined)"
    proof (intro allI impI)
      fix i
      assume i: "i < length r0"
      with len assms(4) have clean: "map_of op (decimal i) = None"
        by simp
      from i un have "r0 ! i \<noteq> Undefined"
        by (metis nth_mem)
      with i clean show "spread op r0 ! i =
          (case recorded kind es n i of Some m \<Rightarrow> Obs m | None \<Rightarrow> Undefined)"
        by (simp add: spread_nth read obs_at_def split: cell.splits)
    qed
    have "spread op r0 \<noteq> []"
      using ne length_spread [of op r0] by auto
    with len top beyond slots show ?thesis
      by (simp add: r length_spread)
  qed
  have "\<forall>(n, r) \<in> set ?rows.
              r \<noteq> [] \<and> length r \<le> length es \<and>
              recorded kind es n (length r - 1) \<noteq> None \<and>
              (\<forall>i. length r \<le> i \<longrightarrow> recorded kind es n i = None) \<and>
              (\<forall>i < length r.
                 r ! i = (case recorded kind es n i of
                            Some m \<Rightarrow> Obs m
                          | None \<Rightarrow> Undefined))"
    using rows by blast
  with run d keys show ?thesis
    by blast
qed

text \<open>
  Five lab sets from a pristine prototype: the Glucose row ends at index 4, the last index
  at which Glucose is recorded, and its slot 0 is an explicit \<^verbatim>\<open>undefined\<close>.
\<close>

theorem parseEntries_rows_dense_witness:
  "parseEntries pristine (Some five_lab_sets) ''LabSet'' =
     (Inr [(''Sodium'', [Obs (leaf ''Sodium'' ''d1''), Obs (leaf ''Sodium'' ''d2''), Undefined,
                         Obs (leaf ''Sodium'' ''d4'')]),
           (''Glucose'', [Undefined, Obs (leaf ''Glucose'' ''d2''), Undefined, Undefined,
                          Obs (leaf ''Glucose'' ''d5'')])],
      pristine) \<and>
   recorded ''LabSet'' five_lab_sets ''Glucose'' 4 \<noteq> None \<and>
   recorded ''LabSet'' five_lab_sets ''Glucose'' 5 = None \<and>
   recorded ''LabSet'' five_lab_sets ''Glucose'' 0 = None"
proof -
  let ?glucose = "[Undefined, Obs (leaf ''Glucose'' ''d2''), Undefined, Undefined,
                   Obs (leaf ''Glucose'' ''d5'')]"
  let ?rows = "[(''Sodium'', [Obs (leaf ''Sodium'' ''d1''), Obs (leaf ''Sodium'' ''d2''),
                              Undefined, Obs (leaf ''Sodium'' ''d4'')]),
                (''Glucose'', ?glucose)]"
  have kind: "''LabSet'' = ''LabSet'' \<or> ''LabSet'' = ''Test''"
    by simp
  have present: "''LabSet'' = ''LabSet'' \<longrightarrow> (\<forall>e \<in> set five_lab_sets. members e \<noteq> None)"
    by (simp add: five_lab_sets_def lab_set_def)
  have plain: "\<forall>m \<in> set (placed ''LabSet'' five_lab_sets). inherited pristine (name m) = None"
    by (simp add: placed_def five_lab_sets_def lab_set_def leaf_def inherited_def
        pristine_def Object_prototype_names_def)
  have clean: "\<forall>i < length five_lab_sets. map_of pristine (decimal i) = None"
    by (simp add: pristine_def)
  have run: "parseEntries pristine (Some five_lab_sets) ''LabSet'' = (Inr ?rows, pristine)"
    by code_simp
  from parseEntries_rows_dense [OF kind present plain clean] run
  have "\<forall>(n, r) \<in> set ?rows.
          r \<noteq> [] \<and> length r \<le> length five_lab_sets \<and>
          recorded ''LabSet'' five_lab_sets n (length r - 1) \<noteq> None \<and>
          (\<forall>i. length r \<le> i \<longrightarrow> recorded ''LabSet'' five_lab_sets n i = None) \<and>
          (\<forall>i < length r.
             r ! i = (case recorded ''LabSet'' five_lab_sets n i of
                        Some m \<Rightarrow> Obs m
                      | None \<Rightarrow> Undefined))"
    by auto
  then have row: "recorded ''LabSet'' five_lab_sets ''Glucose'' (length ?glucose - 1) \<noteq> None"
    "\<forall>i. length ?glucose \<le> i \<longrightarrow> recorded ''LabSet'' five_lab_sets ''Glucose'' i = None"
    "\<forall>i < length ?glucose.
       ?glucose ! i = (case recorded ''LabSet'' five_lab_sets ''Glucose'' i of
                         Some m \<Rightarrow> Obs m
                       | None \<Rightarrow> Undefined)"
    by simp_all
  from row(1) have top: "recorded ''LabSet'' five_lab_sets ''Glucose'' 4 \<noteq> None"
    by (simp add: eval_nat_numeral)
  from row(2) have beyond: "recorded ''LabSet'' five_lab_sets ''Glucose'' 5 = None"
    by (simp add: eval_nat_numeral)
  from row(3) have "?glucose ! 0 = (case recorded ''LabSet'' five_lab_sets ''Glucose'' 0 of
                         Some m \<Rightarrow> Obs m
                       | None \<Rightarrow> Undefined)"
    by (metis length_greater_0_conv list.discI)
  then have gap: "recorded ''LabSet'' five_lab_sets ''Glucose'' 0 = None"
    by (simp split: option.splits)
  from run top beyond gap show ?thesis
    by simp
qed

text \<open>
  Claim C6. For a kind other than \<^verbatim>\<open>LabSet\<close> and \<^verbatim>\<open>Test\<close>, whatever the
  entries and the prototype, the grouper returns the empty mapping and throws nothing; it
  leaves the prototype as it is.
\<close>

theorem parseEntries_unrecognised_kind:
  assumes "kind \<noteq> ''LabSet''" and "kind \<noteq> ''Test''"
  shows "parseEntries op es kind = (Inr [], op)"
  using assms by (rule parseEntries_other)

theorem parseEntries_unrecognised_kind_witness:
  "''Panel'' \<noteq> ''LabSet'' \<and> ''Panel'' \<noteq> ''Test'' \<and>
   parseEntries pristine (Some five_lab_sets_proto) ''Panel'' = (Inr [], pristine)"
proof -
  have k1: "''Panel'' \<noteq> ''LabSet''" and k2: "''Panel'' \<noteq> ''Test''"
    by simp_all
  from parseEntries_unrecognised_kind [OF k1 k2, of pristine "Some five_lab_sets_proto"] k1 k2
  show ?thesis by simp
qed

text \<open>
  Claim C9. For the kind \<^verbatim>\<open>LabSet\<close> the grouper returns when every entry has its
  \<^verbatim>\<open>members\<close>, and as soon as one entry has none it throws a TypeError: the entry
  is not passed over as an empty group. This holds whatever the names and the prototype.
\<close>

theorem parseEntries_LabSet_needs_members:
  "((\<forall>e \<in> set es. members e \<noteq> None) \<longrightarrow>
      (\<exists>rows. fst (parseEntries op (Some es) ''LabSet'') = Inr rows)) \<and>
   ((\<exists>e \<in> set es. members e = None) \<longrightarrow>
      fst (parseEntries op (Some es) ''LabSet'') = Inl TypeError)"
proof (intro conjI impI)
  assume "\<forall>e \<in> set es. members e \<noteq> None"
  then obtain built where "fst (forEach_LabSet es 0 ([], op)) = Inr built"
    using forEach_LabSet_total by blast
  then show "\<exists>rows. fst (parseEntries op (Some es) ''LabSet'') = Inr rows"
    by (cases "forEach_LabSet es 0 ([], op)") (simp add: parseEntries_LabSet_fst)
next
  assume "\<exists>e \<in> set es. members e = None"
  then have "fst (forEach_LabSet es 0 ([], op)) = Inl TypeError"
    by (rule forEach_LabSet_fails)
  then show "fst (parseEntries op (Some es) ''LabSet'') = Inl TypeError"
    by (cases "forEach_LabSet es 0 ([], op)") (simp add: parseEntries_LabSet_fst)
qed

text \<open>
  Five entries with members are grouped; a lab set followed by a leaf record, which has no
  members, makes the grouper throw.
\<close>

theorem parseEntries_LabSet_needs_members_witness:
  "(\<exists>rows. fst (parseEntries pristine (Some five_lab_sets) ''LabSet'') = Inr rows) \<and>
   fst (parseEntries pristine
          (Some [lab_set ''d1'' [leaf ''Sodium'' ''d1''], leaf ''Glucose'' ''d2''])
          ''LabSet'') = Inl TypeError"
  using parseEntries_LabSet_needs_members [of five_lab_sets pristine]
    parseEntries_LabSet_needs_members
      [of "[lab_set ''d1'' [leaf ''Sodium'' ''d1''], leaf ''Glucose'' ''d2'']" pristine]
  by (simp add: five_lab_sets_def lab_set_def leaf_def)

subsection \<open>The hooks\<close>

lemma find_no_panel:
  "\<forall>(pName, panelData) \<in> set obs. Some (uuid panelData) \<noteq> panelUuid \<Longrightarrow>
   find (\<lambda>(pName, panelData). Some (uuid panelData) = panelUuid) obs = None"
  by (induction obs) auto

text \<open>
  Claim C7. When the fetch has loaded with no error and no panel of \<open>sortedObs\<close> has the
  requested uuid, \<^verbatim>\<open>useTimelineData\<close> returns the data with the empty parsed time,
  the error \<^verbatim>\<open>Error('panel data missing')\<close>, and \<open>loaded\<close> as the fetch gave it;
  the grouper is not run, so \<^verbatim>\<open>Object.prototype\<close> is as before.
\<close>

theorem useTimelineData_panel_missing:
  assumes "sortedObs (usePatientResultsData patientUuid) = Some obs"
    and "loaded (usePatientResultsData patientUuid)"
    and "error (usePatientResultsData patientUuid) = None"
    and "\<forall>(pName, panelData) \<in> set obs. Some (uuid panelData) \<noteq> panelUuid"
  shows "useTimelineData dj usePatientResultsData op patientUuid panelUuid =
     (Inr \<lparr>loaded = loaded (usePatientResultsData patientUuid),
           error = Some (Error ''panel data missing''),
           data = empty_parsedTime\<rparr>, op)"
  using assms(1-3) find_no_panel [OF assms(4)]
  by (simp add: useTimelineData_def Let_def)

theorem useTimelineData_panel_missing_witness:
  "useTimelineData sample_dayjs loaded_fetch pristine ''patient'' (Some ''panel-3'') =
     (Inr \<lparr>loaded = True, error = Some (Error ''panel data missing''),
           data = \<lparr>parsedTime = None, rowData = None, panelName = None\<rparr>\<rparr>, pristine)"
proof -
  have obs: "sortedObs (loaded_fetch ''patient'') = Some sample_obs"
    and ready: "loaded (loaded_fetch ''patient'')"
    and no_error: "error (loaded_fetch ''patient'') = None"
    by (simp_all add: loaded_fetch_def)
  have missing: "\<forall>(pName, panelData) \<in> set sample_obs. Some (uuid panelData) \<noteq> Some ''panel-3''"
    by (simp add: sample_obs_def)
  from useTimelineData_panel_missing
    [where usePatientResultsData = loaded_fetch and patientUuid = "''patient''"
       and dj = sample_dayjs and op = pristine, OF obs ready no_error missing]
  show ?thesis by (simp add: loaded_fetch_def empty_parsedTime_def)
qed

text \<open>
  Claim C8. When \<open>sortedObs\<close> is absent, or \<open>loaded\<close> is false, or there is an error,
  each of the three hooks returns the \<open>loaded\<close> and the \<open>error\<close> of the fetch as they
  are, with the placeholder data: nothing is grouped and no time axis is built, and
  \<^verbatim>\<open>Object.prototype\<close> is as before.
\<close>

theorem hooks_not_ready:
  assumes "sortedObs (usePatientResultsData patientUuid) = None \<or>
           \<not> loaded (usePatientResultsData patientUuid) \<or>
           error (usePatientResultsData patientUuid) \<noteq> None"
  shows "useTimelineData dj usePatientResultsData op patientUuid panelUuid =
           (Inr \<lparr>loaded = loaded (usePatientResultsData patientUuid),
                 error = error (usePatientResultsData patientUuid),
                 data = empty_parsedTime\<rparr>, op) \<and>
         useAllTimelineData dj usePatientResultsData op patientUuid panelUuid =
           (Inr \<lparr>loaded = loaded (usePatientResultsData patientUuid),
                 error = error (usePatientResultsData patientUuid),
                 data = [empty_parsedTime]\<rparr>, op) \<and>
         usePatientPanels usePatientResultsData patientUuid =
           \<lparr>loaded = loaded (usePatientResultsData patientUuid),
            error = error (usePatientResultsData patientUuid),
            data = Placeholder [empty_parsedTime]\<rparr>"
proof (cases "sortedObs (usePatientResultsData patientUuid)")
  case None
  then show ?thesis
    by (simp add: useTimelineData_def useAllTimelineData_def usePatientPanels_def Let_def)
next
  case (Some obs)
  with assms have "\<not> loaded (usePatientResultsData patientUuid) \<or>
      error (usePatientResultsData patientUuid) \<noteq> None"
    by simp
  with Some show ?thesis
    by (auto simp: useTimelineData_def useAllTimelineData_def usePatientPanels_def Let_def)
qed

text \<open>A fetch that failed after its data had arrived: the error is handed on.\<close>

theorem hooks_not_ready_witness:
  "useTimelineData sample_dayjs failed_fetch pristine ''patient'' (Some ''panel-1'') =
     (Inr \<lparr>loaded = True, error = Some (Error ''Network Error''), data = empty_parsedTime\<rparr>,
      pristine) \<and>
   useAllTimelineData sample_dayjs failed_fetch pristine ''patient'' None =
     (Inr \<lparr>loaded = True, error = Some (Error ''Network Error''),
           data = [empty_parsedTime]\<rparr>, pristine) \<and>
   usePatientPanels failed_fetch ''patient'' =
     \<lparr>loaded = True, error = Some (Error ''Network Error''),
      data = Placeholder [empty_parsedTime]\<rparr> \<and>
   useTimelineData sample_dayjs loading_fetch pristine ''patient'' (Some ''panel-1'') =
     (Inr \<lparr>loaded = False, error = None, data = empty_parsedTime\<rparr>, pristine)"
proof -
  have failed: "sortedObs (failed_fetch ''patient'') = None \<or>
      \<not> loaded (failed_fetch ''patient'') \<or> error (failed_fetch ''patient'') \<noteq> None"
    by (simp add: failed_fetch_def)
  have loading: "sortedObs (loading_fetch ''patient'') = None \<or>
      \<not> loaded (loading_fetch ''patient'') \<or> error (loading_fetch ''patient'') \<noteq> None"
    by (simp add: loading_fetch_def)
  from hooks_not_ready
      [where usePatientResultsData = failed_fetch and patientUuid = "''patient''"
         and dj = sample_dayjs and op = pristine and panelUuid = "Some ''panel-1''", OF failed]
    hooks_not_ready
      [where usePatientResultsData = failed_fetch and patientUuid = "''patient''"
         and dj = sample_dayjs and op = pristine and panelUuid = None, OF failed]
    hooks_not_ready
      [where usePatientResultsData = loading_fetch and patientUuid = "''patient''"
         and dj = sample_dayjs and op = pristine and panelUuid = "Some ''panel-1''", OF loading]
  show ?thesis by (simp add: failed_fetch_def loading_fetch_def)
qed

text \<open>
  Claim C10. The result of \<^verbatim>\<open>useAllTimelineData\<close> does not depend on its
  \<open>panelUuid\<close>: for the same fetch, patient and prototype, any two values give the same
  result.
\<close>

theorem useAllTimelineData_ignores_panelUuid:
  "useAllTimelineData dj usePatientResultsData op patientUuid panelUuid =
   useAllTimelineData dj usePatientResultsData op patientUuid panelUuid'"
  by (simp add: useAllTimelineData_def)

theorem useAllTimelineData_ignores_panelUuid_witness:
  "useAllTimelineData sample_dayjs loaded_fetch pristine ''patient'' (Some ''panel-2'') =
   useAllTimelineData sample_dayjs loaded_fetch pristine ''patient'' None"
  using useAllTimelineData_ignores_panelUuid
    [of sample_dayjs loaded_fetch pristine "''patient''" "Some ''panel-2''" None]
  by simp

end
